theory Spec2Isabelle
  imports Main "HOL-Library.Char_ord" "HOL-Library.Dlist" "HOL-Library.AList"
begin

section \<open>Identities and the order that assigns roles\<close>

text \<open>
  \<^verbatim>\<open>ConnectionManager.CreateConnector\<close> compares two identities with the
  \<^verbatim>\<open><\<close> operator of the language, which on two strings compares them code unit by
  code unit: a proper prefix is smaller, otherwise the first differing code unit decides.
  The function is written for any linearly ordered type of code units; the manager below
  uses it on \<^typ>\<open>string\<close>, whose characters are ordered by their code
  (identities are UUIDs, so every code unit is an ASCII character).
\<close>

fun string_less :: "'a::linorder list \<Rightarrow> 'a list \<Rightarrow> bool" where
  "string_less [] [] = False"
| "string_less [] (y # ys) = True"
| "string_less (x # xs) [] = False"
| "string_less (x # xs) (y # ys) = (if x = y then string_less xs ys else x < y)"

datatype Role = Offerer | Answerer

section \<open>The connection capability\<close>

text \<open>
  \<^verbatim>\<open>PeerConnector\<close> drives a browser \<^verbatim>\<open>RTCPeerConnection\<close>. That object is not part
  of the repository; it is modelled by the part of its contract that the connector relies
  on: the two descriptions start out absent, \<^verbatim>\<open>addIceCandidate\<close> rejects while no remote
  description is present, \<^verbatim>\<open>addTrack\<close> refuses a track that already has a sender and
  otherwise gives the track to a sender that can be used again or, when there is none, to
  a new one, \<^verbatim>\<open>removeTrack\<close> detaches the sender's track and does nothing for a sender
  without one, and every operation fails with \<^verbatim>\<open>InvalidStateError\<close> once the connection
  is closed. A session description that the capability creates itself has opaque content.
\<close>

datatype DOMException = InvalidStateError | InvalidAccessError | TypeError

type_synonym RTCIceCandidate = string
type_synonym RTCRtpSender = nat

datatype TrackKind = Audio | Video

datatype MediaStreamTrack = MediaStreamTrack (kind: TrackKind) (trackId: string)

text \<open>A \<^verbatim>\<open>MediaStream\<close> holds a set of tracks; \<^verbatim>\<open>getTracks()\<close> lists each once.\<close>

type_synonym MediaStream = "MediaStreamTrack dlist"

definition getTracks :: "MediaStream \<Rightarrow> MediaStreamTrack list" where
  "getTracks stream = list_of_dlist stream"

record RTCSessionDescriptionInit =
  sdpType :: string
  sdp :: string

datatype RTCSessionDescription =
    FromPeer RTCSessionDescriptionInit
  | LocalAnswer
  | LocalImplicit

text \<open>
  What the connection keeps for each sender: the track it sends, if any, the kind of media
  it was made for, and whether a negotiation has ever put it to use for sending.
\<close>

record Sender =
  senderTrack :: "MediaStreamTrack option"
  senderKind :: TrackKind
  usedToSend :: bool

record RTCPeerConnection =
  localDescription :: "RTCSessionDescription option"
  remoteDescription :: "RTCSessionDescription option"
  iceCandidates :: "RTCIceCandidate list"
  senders :: "Sender list"
  isClosed :: bool

definition new_RTCPeerConnection :: RTCPeerConnection where
  "new_RTCPeerConnection =
     \<lparr>localDescription = None, remoteDescription = None, iceCandidates = [],
      senders = [], isClosed = False\<rparr>"

text \<open>
  A remote description that has been applied settles the negotiation of the senders that
  have a track: a remote answer does so itself, and a remote offer is answered at once by
  the only operation that applies one, \<^verbatim>\<open>AcceptOffer\<close>. The peer is taken to accept what is
  sent to it, so these senders count as used for sending from then on.
\<close>

definition putToUse :: "Sender \<Rightarrow> Sender" where
  "putToUse s = (if senderTrack s = None then s else s\<lparr>usedToSend := True\<rparr>)"

definition setRemoteDescription ::
  "RTCPeerConnection \<Rightarrow> RTCSessionDescriptionInit \<Rightarrow> DOMException + RTCPeerConnection" where
  "setRemoteDescription pc d =
     (if isClosed pc then Inl InvalidStateError
      else Inr (pc\<lparr>remoteDescription := Some (FromPeer d),
                   senders := map putToUse (senders pc)\<rparr>))"

definition createAnswer :: "RTCPeerConnection \<Rightarrow> DOMException + RTCSessionDescription" where
  "createAnswer pc = (if isClosed pc then Inl InvalidStateError else Inr LocalAnswer)"

text \<open>\<^verbatim>\<open>setLocalDescription(null)\<close> lets the capability create the description itself.\<close>

definition setLocalDescription ::
  "RTCPeerConnection \<Rightarrow> RTCSessionDescription option \<Rightarrow> DOMException + RTCPeerConnection" where
  "setLocalDescription pc d =
     (if isClosed pc then Inl InvalidStateError
      else Inr (pc\<lparr>localDescription :=
                    Some (case d of None \<Rightarrow> LocalImplicit | Some d' \<Rightarrow> d')\<rparr>))"

definition addIceCandidate ::
  "RTCPeerConnection \<Rightarrow> RTCIceCandidate \<Rightarrow> DOMException + RTCPeerConnection" where
  "addIceCandidate pc candidate =
     (if isClosed pc \<or> remoteDescription pc = None then Inl InvalidStateError
      else Inr (pc\<lparr>iceCandidates := iceCandidates pc @ [candidate]\<rparr>))"

text \<open>The tracks the connection currently sends, in the order of their senders.\<close>

definition attachedTracks :: "RTCPeerConnection \<Rightarrow> MediaStreamTrack list" where
  "attachedTracks pc = List.map_filter senderTrack (senders pc)"

text \<open>
  A sender is named by its position in the connection's list of senders. \<^verbatim>\<open>addTrack\<close>
  gives the track to the first sender that has no track, was made for the kind of the
  track and has never been used for sending; only when there is none does it make a new
  sender.
\<close>

definition reusable :: "Sender \<Rightarrow> MediaStreamTrack \<Rightarrow> bool" where
  "reusable s track = (senderTrack s = None \<and> senderKind s = kind track \<and> \<not> usedToSend s)"

fun reusableSender :: "Sender list \<Rightarrow> MediaStreamTrack \<Rightarrow> RTCRtpSender option" where
  "reusableSender [] track = None"
| "reusableSender (s # rest) track =
     (if reusable s track then Some 0 else map_option Suc (reusableSender rest track))"

definition addTrack ::
  "RTCPeerConnection \<Rightarrow> MediaStreamTrack \<Rightarrow> DOMException + (RTCPeerConnection \<times> RTCRtpSender)" where
  "addTrack pc track =
     (if isClosed pc then Inl InvalidStateError
      else if track \<in> set (attachedTracks pc) then Inl InvalidAccessError
      else (case reusableSender (senders pc) track of
              Some sender \<Rightarrow>
                Inr (pc\<lparr>senders := (senders pc)[sender := (senders pc ! sender)\<lparr>senderTrack := Some track\<rparr>]\<rparr>,
                     sender)
            | None \<Rightarrow>
                Inr (pc\<lparr>senders := senders pc @
                        [\<lparr>senderTrack = Some track, senderKind = kind track, usedToSend = False\<rparr>]\<rparr>,
                     length (senders pc))))"

definition removeTrack ::
  "RTCPeerConnection \<Rightarrow> RTCRtpSender \<Rightarrow> DOMException + RTCPeerConnection" where
  "removeTrack pc sender =
     (if isClosed pc then Inl InvalidStateError
      else if length (senders pc) \<le> sender then Inl InvalidAccessError
      else Inr (pc\<lparr>senders := (senders pc)[sender := (senders pc ! sender)\<lparr>senderTrack := None\<rparr>]\<rparr>))"

definition close :: "RTCPeerConnection \<Rightarrow> RTCPeerConnection" where
  "close pc = pc\<lparr>isClosed := True\<rparr>"

section \<open>PeerConnector\<close>

datatype ConnectionChangeType = Ice | RTC | Signal

datatype ConnectionChange = ConnectionChange ConnectionChangeType (State: string)

record PeerConnector =
  connector :: RTCPeerConnection
  localCandidates :: "RTCIceCandidate list"
  remoteCandidates :: "RTCIceCandidate list"
  shouldOffer :: bool
  rtpSenders :: "RTCRtpSender list"

text \<open>The five delegates of a connector; a call of one is an output of the operation.\<close>

datatype Output =
    OnHasIceCandidates "RTCIceCandidate list"
  | OnHasStreams "MediaStream list"
  | OnHasOffer "RTCSessionDescription option"
  | OnAcceptedOffer "RTCSessionDescription option"
  | OnConnectionChanged ConnectionChange

definition new_PeerConnector :: "bool \<Rightarrow> PeerConnector" where
  "new_PeerConnector offer =
     \<lparr>connector = new_RTCPeerConnection, localCandidates = [], remoteCandidates = [],
      shouldOffer = offer, rtpSenders = []\<rparr>"

text \<open>
  The connector that may originate an offer is the Offerer; the guard of
  \<^verbatim>\<open>onnegotiationneeded\<close> is what tells the two roles apart.
\<close>

definition role :: "PeerConnector \<Rightarrow> Role" where
  "role c = (if shouldOffer c then Offerer else Answerer)"

text \<open>
  The three state events wrap the label that the capability reports at that moment.
\<close>

definition onconnectionstatechange :: "PeerConnector \<Rightarrow> string \<Rightarrow> PeerConnector \<times> Output list" where
  "onconnectionstatechange c connectionState =
     (c, [OnConnectionChanged (ConnectionChange RTC connectionState)])"

definition oniceconnectionstatechange :: "PeerConnector \<Rightarrow> string \<Rightarrow> PeerConnector \<times> Output list" where
  "oniceconnectionstatechange c iceConnectionState =
     (c, [OnConnectionChanged (ConnectionChange Ice iceConnectionState)])"

definition onsignalingstatechange :: "PeerConnector \<Rightarrow> string \<Rightarrow> PeerConnector \<times> Output list" where
  "onsignalingstatechange c signalingState =
     (c, [OnConnectionChanged (ConnectionChange Signal signalingState)])"

text \<open>The event carries a candidate, or \<^verbatim>\<open>null\<close> when gathering has ended.\<close>

definition onicecandidate ::
  "PeerConnector \<Rightarrow> RTCIceCandidate option \<Rightarrow> PeerConnector \<times> Output list" where
  "onicecandidate c candidate =
     (case candidate of
        None \<Rightarrow> (c\<lparr>localCandidates := []\<rparr>, [OnHasIceCandidates (localCandidates c)])
      | Some cand \<Rightarrow> (c\<lparr>localCandidates := localCandidates c @ [cand]\<rparr>, []))"

text \<open>A failure of \<^verbatim>\<open>setLocalDescription\<close> is caught and logged.\<close>

definition onnegotiationneeded :: "PeerConnector \<Rightarrow> PeerConnector \<times> Output list" where
  "onnegotiationneeded c =
     (if \<not> shouldOffer c \<and> localDescription (connector c) = None
           \<and> remoteDescription (connector c) = None
      then (c, [])
      else (case setLocalDescription (connector c) None of
              Inl err \<Rightarrow> (c, [])
            | Inr pc \<Rightarrow> (c\<lparr>connector := pc\<rparr>, [OnHasOffer (localDescription pc)])))"

definition ontrack :: "PeerConnector \<Rightarrow> MediaStream list \<Rightarrow> PeerConnector \<times> Output list" where
  "ontrack c streams = (c, [OnHasStreams streams])"

definition Shutdown :: "PeerConnector \<Rightarrow> PeerConnector" where
  "Shutdown c = c\<lparr>connector := close (connector c)\<rparr>"

text \<open>
  Each candidate is tried on the capability; the \<^verbatim>\<open>catch\<close> of a rejection appends it
  to \<^verbatim>\<open>remoteCandidates\<close>. Nothing is thrown out of the callbacks, so the promise of
  \<^verbatim>\<open>AddRemoteCandidates\<close> always resolves.
\<close>

definition tryAddIceCandidate :: "RTCIceCandidate \<Rightarrow> PeerConnector \<Rightarrow> PeerConnector" where
  "tryAddIceCandidate candidate c =
     (case addIceCandidate (connector c) candidate of
        Inr pc \<Rightarrow> c\<lparr>connector := pc\<rparr>
      | Inl err \<Rightarrow> c\<lparr>remoteCandidates := remoteCandidates c @ [candidate]\<rparr>)"

definition AddRemoteCandidates ::
  "PeerConnector \<Rightarrow> RTCIceCandidate list \<Rightarrow> PeerConnector \<times> DOMException option" where
  "AddRemoteCandidates c candidates = (fold tryAddIceCandidate candidates c, None)"

definition AcceptAnswer ::
  "PeerConnector \<Rightarrow> RTCSessionDescriptionInit \<Rightarrow> PeerConnector \<times> DOMException option" where
  "AcceptAnswer c answer =
     (case setRemoteDescription (connector c) answer of
        Inl err \<Rightarrow> (c, Some err)
      | Inr pc \<Rightarrow> (c\<lparr>connector := pc\<rparr>, None))"

text \<open>
  In the flush of \<^verbatim>\<open>AcceptOffer\<close> a rejected candidate is dropped: the callback has
  no \<^verbatim>\<open>catch\<close>, and the buffer is replaced by a new array whatever happened.
\<close>

definition flushIceCandidate :: "RTCIceCandidate \<Rightarrow> RTCPeerConnection \<Rightarrow> RTCPeerConnection" where
  "flushIceCandidate candidate pc =
     (case addIceCandidate pc candidate of Inr pc' \<Rightarrow> pc' | Inl err \<Rightarrow> pc)"

definition AcceptOffer ::
  "PeerConnector \<Rightarrow> RTCSessionDescriptionInit
     \<Rightarrow> PeerConnector \<times> Output list \<times> DOMException option" where
  "AcceptOffer c offer =
     (case setRemoteDescription (connector c) offer of
        Inl err \<Rightarrow> (c, [], Some err)
      | Inr pc1 \<Rightarrow>
          (case createAnswer pc1 of
             Inl err \<Rightarrow> (c\<lparr>connector := pc1\<rparr>, [], Some err)
           | Inr answer \<Rightarrow>
               (case setLocalDescription pc1 (Some answer) of
                  Inl err \<Rightarrow> (c\<lparr>connector := pc1\<rparr>, [], Some err)
                | Inr pc2 \<Rightarrow>
                    (let pc3 = fold flushIceCandidate (remoteCandidates c) pc2
                     in (c\<lparr>connector := pc3, remoteCandidates := []\<rparr>,
                         [OnAcceptedOffer (localDescription pc3)], None)))))"

text \<open>
  \<^verbatim>\<open>StopLocalStream\<close> removes the track of every sender it has recorded. Its last
  statement, \<^verbatim>\<open>this.rtpSenders.slice(this.rtpSenders.length - 1)\<close>, copies a part of the
  array and drops the copy, so \<^verbatim>\<open>rtpSenders\<close> is left as it was. An exception of the
  capability leaves the loop at once.
\<close>

fun removeTracks ::
  "RTCRtpSender list \<Rightarrow> RTCPeerConnection \<Rightarrow> RTCPeerConnection \<times> DOMException option" where
  "removeTracks [] pc = (pc, None)"
| "removeTracks (sender # rest) pc =
     (case removeTrack pc sender of
        Inl err \<Rightarrow> (pc, Some err)
      | Inr pc' \<Rightarrow> removeTracks rest pc')"

definition StopLocalStream :: "PeerConnector \<Rightarrow> PeerConnector \<times> DOMException option" where
  "StopLocalStream c =
     (case removeTracks (rtpSenders c) (connector c) of
        (pc, err) \<Rightarrow> (c\<lparr>connector := pc\<rparr>, err))"

fun addTracks ::
  "MediaStreamTrack list \<Rightarrow> PeerConnector \<Rightarrow> PeerConnector \<times> DOMException option" where
  "addTracks [] c = (c, None)"
| "addTracks (track # rest) c =
     (case addTrack (connector c) track of
        Inl err \<Rightarrow> (c, Some err)
      | Inr (pc, sender) \<Rightarrow>
          addTracks rest (c\<lparr>connector := pc, rtpSenders := rtpSenders c @ [sender]\<rparr>))"

definition StartLocalStream ::
  "PeerConnector \<Rightarrow> MediaStream \<Rightarrow> PeerConnector \<times> DOMException option" where
  "StartLocalStream c stream =
     (case StopLocalStream c of
        (c', Some err) \<Rightarrow> (c', Some err)
      | (c', None) \<Rightarrow> addTracks (getTracks stream) c')"

section \<open>Envelopes\<close>

text \<open>
  \<^verbatim>\<open>Envelope.Data\<close> is the parsed JSON of the message, of any shape: \<^verbatim>\<open>null\<close>, an
  array of candidates, a session description, or another object (its string properties).
\<close>

datatype payload =
    NullData
  | ObjectData "(string \<times> string) list"
  | SessionDescription RTCSessionDescriptionInit
  | IceCandidates "RTCIceCandidate list"

record Envelope =
  RoomId :: string
  FromId :: string
  Type :: string
  Data :: payload

text \<open>
  The string properties that can be read from a payload with \<^verbatim>\<open>Data["key"]\<close>. Reading a
  property of \<^verbatim>\<open>null\<close> throws; a property that an object does not have is undefined.
\<close>

fun properties :: "payload \<Rightarrow> (string \<times> string) list option" where
  "properties NullData = None"
| "properties (ObjectData kvs) = Some kvs"
| "properties (SessionDescription d) = Some [(''type'', sdpType d), (''sdp'', sdp d)]"
| "properties (IceCandidates cs) = Some []"

record ClientLocation =
  CityName :: "string option"
  CountryName :: "string option"
  CountryCode :: "string option"
  ContinentName :: "string option"
  SubdivisionName :: "string option"

section \<open>ConnectionManager\<close>

text \<open>
  What the manager does to the outside: a \<^verbatim>\<open>broker.Send(payload, type, toId)\<close>, a call
  of one of its own delegates \<^verbatim>\<open>OnConnectionChanged\<close>, \<^verbatim>\<open>OnHasStreams\<close>, \<^verbatim>\<open>OnLocation\<close>,
  or the shutdown of a connector that leaves the registry (recorded in its final state).
\<close>

datatype sent =
    SentCandidates "RTCIceCandidate list"
  | SentDescription "RTCSessionDescription option"
  | SentEmptyObject

datatype effect =
    BrokerSend sent string string
  | ManagerOnConnectionChanged string ConnectionChange
  | ManagerOnHasStreams string "MediaStream list"
  | ManagerOnLocation string ClientLocation
  | ConnectorShutdown string PeerConnector

text \<open>
  The registry \<^verbatim>\<open>connectors\<close> is an object used as a dictionary: an association list
  in the order of its keys' enumeration, a new key at the end (the order of insertion, which
  is the enumeration order for keys that are not array indices, such as UUIDs).
  \<^verbatim>\<open>OnNeedLocalStream\<close> holds the stream that the delegate of that name returns.
\<close>

record ConnectionManager =
  AttendeeId :: string
  connectors :: "(string \<times> PeerConnector) list"
  OnNeedLocalStream :: MediaStream

text \<open>
  Modelled from the spec: \<^verbatim>\<open>PeerConnectorFactory.CreatePeerConnector\<close> is not among the
  sources. The factory "constructs a PeerConnector given an assigned role", so it passes its
  argument to the constructor of \<^verbatim>\<open>PeerConnector\<close>.
\<close>

definition CreatePeerConnector :: "bool \<Rightarrow> PeerConnector" where
  "CreatePeerConnector offer = new_PeerConnector offer"

fun refreshConnectors ::
  "MediaStream \<Rightarrow> (string \<times> PeerConnector) list
     \<Rightarrow> (string \<times> PeerConnector) list \<times> DOMException option" where
  "refreshConnectors localStream [] = ([], None)"
| "refreshConnectors localStream ((clientId, c) # rest) =
     (case StartLocalStream c localStream of
        (c', Some err) \<Rightarrow> ((clientId, c') # rest, Some err)
      | (c', None) \<Rightarrow>
          (case refreshConnectors localStream rest of
             (rest', err) \<Rightarrow> ((clientId, c') # rest', err)))"


text \<open>
  The five closures that \<^verbatim>\<open>CreateConnector\<close> assigns to the delegates of the connector
  made for \<^verbatim>\<open>fromId\<close>. The one for \<^verbatim>\<open>OnConnectionChanged\<close> looks the registry up again
  under \<^verbatim>\<open>fromId\<close>; with no entry there, the call of \<^verbatim>\<open>Shutdown\<close> on undefined throws.
\<close>

fun deliver ::
  "string \<Rightarrow> ConnectionManager \<Rightarrow> Output
     \<Rightarrow> ConnectionManager \<times> effect list \<times> DOMException option" where
  "deliver fromId m (OnConnectionChanged change) =
     (if State change = ''failed''
      then (case map_of (connectors m) fromId of
              None \<Rightarrow> (m, [ManagerOnConnectionChanged fromId change], Some TypeError)
            | Some c \<Rightarrow>
                (m\<lparr>connectors := AList.delete fromId (connectors m)\<rparr>,
                 [ManagerOnConnectionChanged fromId change, ConnectorShutdown fromId (Shutdown c)],
                 None))
      else (m, [ManagerOnConnectionChanged fromId change], None))"
| "deliver fromId m (OnHasIceCandidates candidates) =
     (m, [BrokerSend (SentCandidates candidates) ''candidates'' fromId], None)"
| "deliver fromId m (OnHasStreams streams) = (m, [ManagerOnHasStreams fromId streams], None)"
| "deliver fromId m (OnHasOffer offer) =
     (m, [BrokerSend (SentDescription offer) ''offer'' fromId], None)"
| "deliver fromId m (OnAcceptedOffer offer) =
     (m, [BrokerSend (SentDescription offer) ''accept'' fromId], None)"

fun deliverAll ::
  "string \<Rightarrow> ConnectionManager \<Rightarrow> Output list
     \<Rightarrow> ConnectionManager \<times> effect list \<times> DOMException option" where
  "deliverAll fromId m [] = (m, [], None)"
| "deliverAll fromId m (out # outs) =
     (case deliver fromId m out of
        (m', effs, Some err) \<Rightarrow> (m', effs, Some err)
      | (m', effs, None) \<Rightarrow>
          (case deliverAll fromId m' outs of
             (m'', effs', err) \<Rightarrow> (m'', effs @ effs', err)))"

definition CreateConnector ::
  "ConnectionManager \<Rightarrow> string \<Rightarrow> ConnectionManager \<times> DOMException option" where
  "CreateConnector m fromId =
     (case map_of (connectors m) fromId of
        Some existing \<Rightarrow> (m, None)
      | None \<Rightarrow>
          (let offer = string_less fromId (AttendeeId m);
               peerConnector = CreatePeerConnector offer
           in (case StartLocalStream peerConnector (OnNeedLocalStream m) of
                 (c, Some err) \<Rightarrow> (m, Some err)
               | (c, None) \<Rightarrow>
                   (m\<lparr>connectors := AList.update fromId c (connectors m)\<rparr>, None))))"

text \<open>
  The dispatch of \<^verbatim>\<open>OnMessage\<close> after the connector exists. The three operations of the
  connector are asynchronous and are not awaited: each is run here to its end, its outputs
  go through the closures above, and a rejection of its promise reaches nobody. A payload
  of the wrong shape makes the operation reject before it changes anything. Reading a
  property of a \<^verbatim>\<open>null\<close> payload throws out of \<^verbatim>\<open>OnMessage\<close> itself. The tests of
  \<^verbatim>\<open>message.Type\<close> exclude each other, so they are written as one chain.
\<close>

definition dispatch ::
  "ConnectionManager \<Rightarrow> Envelope \<Rightarrow> ConnectionManager \<times> effect list \<times> DOMException option" where
  "dispatch m message =
     (if Type message = ''offer'' then
        (case map_of (connectors m) (FromId message) of
           None \<Rightarrow> (m, [], Some TypeError)
         | Some c \<Rightarrow>
             (case Data message of
                SessionDescription offer \<Rightarrow>
                  (case AcceptOffer c offer of
                     (c', outs, rejection) \<Rightarrow>
                       deliverAll (FromId message)
                         (m\<lparr>connectors := AList.update (FromId message) c' (connectors m)\<rparr>) outs)
              | other \<Rightarrow> (m, [], None)))
      else if Type message = ''accept'' then
        (case map_of (connectors m) (FromId message) of
           None \<Rightarrow> (m, [], Some TypeError)
         | Some c \<Rightarrow>
             (case Data message of
                SessionDescription answer \<Rightarrow>
                  (case AcceptAnswer c answer of
                     (c', rejection) \<Rightarrow>
                       (m\<lparr>connectors := AList.update (FromId message) c' (connectors m)\<rparr>, [], None))
              | other \<Rightarrow> (m, [], None)))
      else if Type message = ''candidates'' then
        (case map_of (connectors m) (FromId message) of
           None \<Rightarrow> (m, [], Some TypeError)
         | Some c \<Rightarrow>
             (case Data message of
                IceCandidates candidates \<Rightarrow>
                  (case AddRemoteCandidates c candidates of
                     (c', rejection) \<Rightarrow>
                       (m\<lparr>connectors := AList.update (FromId message) c' (connectors m)\<rparr>, [], None))
              | other \<Rightarrow> (m, [], None)))
      else if Type message = ''location'' then
        (case properties (Data message) of
           None \<Rightarrow> (m, [], Some TypeError)
         | Some kvs \<Rightarrow>
             (m, [ManagerOnLocation (FromId message)
                    \<lparr>CityName = map_of kvs ''cityName'',
                     CountryName = map_of kvs ''countryName'',
                     CountryCode = map_of kvs ''countryCode'',
                     ContinentName = map_of kvs ''continentName'',
                     SubdivisionName = map_of kvs ''subdivisionName''\<rparr>], None))
      else if Type message = ''discover'' then
        (m, [BrokerSend SentEmptyObject ''acknowledge'' (FromId message)], None)
      else (m, [], None))"

definition OnMessage ::
  "ConnectionManager \<Rightarrow> Envelope \<Rightarrow> ConnectionManager \<times> effect list \<times> DOMException option" where
  "OnMessage m message =
     (if FromId message = AttendeeId m then (m, [], None)
      else (case CreateConnector m (FromId message) of
              (m', Some err) \<Rightarrow> (m', [], Some err)
            | (m', None) \<Rightarrow> dispatch m' message))"

text \<open>
  \<^verbatim>\<open>sendersRecorded\<close> says that \<^verbatim>\<open>rtpSenders\<close> names only senders of the capability and
  names every sender that has a track. \<^verbatim>\<open>connectorsOpen\<close> says of a manager that every
  registered connector is open and has its senders recorded.
\<close>

definition sendersRecorded :: "PeerConnector \<Rightarrow> bool" where
  "sendersRecorded c =
     (list_all (\<lambda>sender. sender < length (senders (connector c))) (rtpSenders c) \<and>
      list_all (\<lambda>i. senderTrack (senders (connector c) ! i) = None \<or> i \<in> set (rtpSenders c))
        [0 ..< length (senders (connector c))])"

definition connectorOpen :: "PeerConnector \<Rightarrow> bool" where
  "connectorOpen c = (\<not> isClosed (connector c) \<and> sendersRecorded c)"

definition connectorsOpen :: "ConnectionManager \<Rightarrow> bool" where
  "connectorsOpen m = list_all (\<lambda>(clientId, c). connectorOpen c) (connectors m)"

text \<open>
  The capability delivers \<^verbatim>\<open>onicecandidate\<close> once per event; a run of events is handled
  one after another, the outputs in the order of their emission.
\<close>

fun gather :: "PeerConnector \<Rightarrow> RTCIceCandidate option list \<Rightarrow> PeerConnector \<times> Output list" where
  "gather c [] = (c, [])"
| "gather c (event # events) =
     (case onicecandidate c event of
        (c', outs) \<Rightarrow> (case gather c' events of (c'', outs') \<Rightarrow> (c'', outs @ outs')))"

section \<open>Properties\<close>

subsection \<open>The identity order\<close>

lemma string_less_irrefl: "\<not> string_less xs xs"
  by (induction xs) auto

lemma string_less_asym: "string_less xs ys \<Longrightarrow> \<not> string_less ys xs"
  by (induction xs ys rule: string_less.induct) (auto split: if_splits)

lemma string_less_total: "xs \<noteq> ys \<Longrightarrow> string_less xs ys \<or> string_less ys xs"
  by (induction xs ys rule: string_less.induct) (auto split: if_splits)

lemma string_less_trans: "string_less xs ys \<Longrightarrow> string_less ys zs \<Longrightarrow> string_less xs zs"
proof (induction xs ys arbitrary: zs rule: string_less.induct)
  case (4 x xs y ys)
  then show ?case by (cases zs) (auto split: if_splits)
qed (auto elim: string_less.elims)

subsection \<open>Attaching the local stream\<close>

lemma set_attachedTracks:
  "set (attachedTracks pc) = {t. \<exists>i < length (senders pc). senderTrack (senders pc ! i) = Some t}"
  by (auto simp: attachedTracks_def List.map_filter_def in_set_conv_nth) force

lemma attachedTracks_Nil_iff:
  "attachedTracks pc = [] \<longleftrightarrow> (\<forall>s \<in> set (senders pc). senderTrack s = None)"
  by (auto simp: attachedTracks_def List.map_filter_def filter_empty_conv)

lemma sendersRecorded_iff:
  "sendersRecorded c \<longleftrightarrow>
     (\<forall>s \<in> set (rtpSenders c). s < length (senders (connector c))) \<and>
     (\<forall>i < length (senders (connector c)).
        senderTrack (senders (connector c) ! i) = None \<or> i \<in> set (rtpSenders c))"
  by (auto simp: sendersRecorded_def list_all_iff)

lemma reusableSender_Some:
  "reusableSender ss t = Some s \<Longrightarrow> s < length ss \<and> senderTrack (ss ! s) = None"
  by (induction ss arbitrary: s) (auto simp: reusable_def split: if_splits)

lemma reusableSender_None:
  "\<forall>s \<in> set ss. senderTrack s \<noteq> None \<Longrightarrow> reusableSender ss t = None"
  by (induction ss) (auto simp: reusable_def)

lemma addTrack_ok:
  assumes "\<not> isClosed pc" and "t \<notin> set (attachedTracks pc)"
  shows "\<exists>pc' s. addTrack pc t = Inr (pc', s) \<and> \<not> isClosed pc' \<and>
           length (senders pc) \<le> length (senders pc') \<and> s < length (senders pc') \<and>
           senderTrack (senders pc' ! s) = Some t \<and>
           (s < length (senders pc) \<longrightarrow> senderTrack (senders pc ! s) = None) \<and>
           (\<forall>i < length (senders pc'). i \<noteq> s \<longrightarrow>
              i < length (senders pc) \<and> senders pc' ! i = senders pc ! i)"
proof (cases "reusableSender (senders pc) t")
  case None
  then show ?thesis
    using assms by (auto simp: addTrack_def nth_append)
next
  case (Some s)
  from reusableSender_Some [OF this] show ?thesis
    using assms Some by (auto simp: addTrack_def)
qed

lemma addTrack_attached:
  assumes "addTrack pc t = Inr (pc', s)"
    and "length (senders pc) \<le> length (senders pc')" and "s < length (senders pc')"
    and "senderTrack (senders pc' ! s) = Some t"
    and "s < length (senders pc) \<longrightarrow> senderTrack (senders pc ! s) = None"
    and "\<forall>i < length (senders pc'). i \<noteq> s \<longrightarrow>
              i < length (senders pc) \<and> senders pc' ! i = senders pc ! i"
  shows "set (attachedTracks pc') = insert t (set (attachedTracks pc))"
proof (intro set_eqI iffI)
  fix x assume "x \<in> set (attachedTracks pc')"
  then obtain i where i: "i < length (senders pc')" "senderTrack (senders pc' ! i) = Some x"
    by (auto simp: set_attachedTracks)
  show "x \<in> insert t (set (attachedTracks pc))"
  proof (cases "i = s")
    case True
    then show ?thesis using i assms(4) by simp
  next
    case False
    then have "i < length (senders pc)" "senders pc' ! i = senders pc ! i"
      using assms(6) i(1) by auto
    then show ?thesis using i(2) by (auto simp: set_attachedTracks)
  qed
next
  fix x assume "x \<in> insert t (set (attachedTracks pc))"
  then consider "x = t" | "x \<in> set (attachedTracks pc)" by auto
  then show "x \<in> set (attachedTracks pc')"
  proof cases
    case 1
    then show ?thesis using assms(3,4) by (auto simp: set_attachedTracks)
  next
    case 2
    then obtain i where i: "i < length (senders pc)" "senderTrack (senders pc ! i) = Some x"
      by (auto simp: set_attachedTracks)
    then have "i \<noteq> s" using assms(5) by auto
    moreover have "i < length (senders pc')" using i(1) assms(2) by simp
    ultimately have "senders pc' ! i = senders pc ! i" using assms(6) by auto
    then show ?thesis using i(2) \<open>i < length (senders pc')\<close> by (auto simp: set_attachedTracks)
  qed
qed

lemma addTracks_ok:
  assumes "\<not> isClosed (connector c)" and "sendersRecorded c" and "distinct ts"
    and "set ts \<inter> set (attachedTracks (connector c)) = {}"
  shows "snd (addTracks ts c) = None \<and> \<not> isClosed (connector (fst (addTracks ts c))) \<and>
         sendersRecorded (fst (addTracks ts c)) \<and>
         set (attachedTracks (connector (fst (addTracks ts c)))) =
           set (attachedTracks (connector c)) \<union> set ts"
  using assms
proof (induction ts arbitrary: c)
  case Nil
  then show ?case by simp
next
  case (Cons t ts)
  have "t \<notin> set (attachedTracks (connector c))" using Cons.prems(4) by auto
  from addTrack_ok [OF Cons.prems(1) this]
  obtain pc' s where a: "addTrack (connector c) t = Inr (pc', s)" and o: "\<not> isClosed pc'"
    and l: "length (senders (connector c)) \<le> length (senders pc')" and s: "s < length (senders pc')"
    and t: "senderTrack (senders pc' ! s) = Some t"
    and n: "s < length (senders (connector c)) \<longrightarrow> senderTrack (senders (connector c) ! s) = None"
    and r: "\<forall>i < length (senders pc'). i \<noteq> s \<longrightarrow>
              i < length (senders (connector c)) \<and> senders pc' ! i = senders (connector c) ! i"
    by blast
  let ?c = "c\<lparr>connector := pc', rtpSenders := rtpSenders c @ [s]\<rparr>"
  have att: "set (attachedTracks pc') = insert t (set (attachedTracks (connector c)))"
    using a l s t n r by (rule addTrack_attached)
  have step: "addTracks (t # ts) c = addTracks ts ?c" using a by simp
  have rec: "sendersRecorded ?c"
    unfolding sendersRecorded_iff
  proof (intro conjI ballI allI impI)
    fix x assume "x \<in> set (rtpSenders ?c)"
    then show "x < length (senders (connector ?c))"
      using Cons.prems(2) l s by (auto simp: sendersRecorded_iff)
  next
    fix i assume i: "i < length (senders (connector ?c))"
    show "senderTrack (senders (connector ?c) ! i) = None \<or> i \<in> set (rtpSenders ?c)"
    proof (cases "i = s")
      case True then show ?thesis by simp
    next
      case False
      then have "i < length (senders (connector c))" "senders pc' ! i = senders (connector c) ! i"
        using r i by auto
      then show ?thesis using Cons.prems(2) by (auto simp: sendersRecorded_iff)
    qed
  qed
  have dis: "set ts \<inter> set (attachedTracks (connector ?c)) = {}"
    using Cons.prems(3,4) att by auto
  have "distinct ts" using Cons.prems(3) by simp
  from Cons.IH [of ?c, OF _ rec this dis] o
  show ?case using step att by auto
qed

lemma map_filter_append: "List.map_filter f (xs @ ys) = List.map_filter f xs @ List.map_filter f ys"
  by (simp add: List.map_filter_def)

lemma upt_shift: "n # [Suc n ..< Suc (n + k)] = [n ..< Suc (n + k)]"
  by (simp add: upt_conv_Cons)

lemma addTracks_fresh:
  assumes "\<not> isClosed (connector c)" and "distinct ts"
    and "set ts \<inter> set (attachedTracks (connector c)) = {}"
    and "\<forall>s \<in> set (senders (connector c)). senderTrack s \<noteq> None"
  shows "addTracks ts c =
     (c\<lparr>connector := (connector c)\<lparr>senders := senders (connector c) @
            map (\<lambda>t. \<lparr>senderTrack = Some t, senderKind = kind t, usedToSend = False\<rparr>) ts\<rparr>,
        rtpSenders := rtpSenders c @
            [length (senders (connector c)) ..< length (senders (connector c)) + length ts]\<rparr>, None)"
  using assms
proof (induction ts arbitrary: c)
  case Nil
  then show ?case by simp
next
  case (Cons t ts)
  let ?n = "length (senders (connector c))"
  let ?new = "\<lambda>t. \<lparr>senderTrack = Some t, senderKind = kind t, usedToSend = False\<rparr>"
  let ?c = "c\<lparr>connector := (connector c)\<lparr>senders := senders (connector c) @ [?new t]\<rparr>,
               rtpSenders := rtpSenders c @ [?n]\<rparr>"
  have "t \<notin> set (attachedTracks (connector c))" using Cons.prems(3) by auto
  then have step: "addTracks (t # ts) c = addTracks ts ?c"
    using Cons.prems(1,4) by (simp add: addTrack_def reusableSender_None)
  have att: "attachedTracks (connector ?c) = attachedTracks (connector c) @ [t]"
    by (simp add: attachedTracks_def map_filter_append List.map_filter_simps)
  have "\<not> isClosed (connector ?c)" "distinct ts"
    "set ts \<inter> set (attachedTracks (connector ?c)) = {}"
    "\<forall>s \<in> set (senders (connector ?c)). senderTrack s \<noteq> None"
    using Cons.prems att by auto
  from Cons.IH [OF this]
  have "addTracks ts ?c =
     (?c\<lparr>connector := (connector ?c)\<lparr>senders := senders (connector ?c) @ map ?new ts\<rparr>,
        rtpSenders := rtpSenders ?c @
            [length (senders (connector ?c)) ..< length (senders (connector ?c)) + length ts]\<rparr>, None)" .
  also have "\<dots> = (c\<lparr>connector := (connector c)\<lparr>senders := senders (connector c) @ map ?new (t # ts)\<rparr>,
        rtpSenders := rtpSenders c @ [?n ..< ?n + length (t # ts)]\<rparr>, None)"
    using upt_shift [of ?n "length ts"] by simp
  finally show ?case using step by simp
qed

lemma StartLocalStream_new:
  "StartLocalStream (new_PeerConnector b) s =
     ((new_PeerConnector b)\<lparr>connector := new_RTCPeerConnection\<lparr>senders :=
           map (\<lambda>t. \<lparr>senderTrack = Some t, senderKind = kind t, usedToSend = False\<rparr>) (getTracks s)\<rparr>,
        rtpSenders := [0 ..< length (getTracks s)]\<rparr>, None)"
  using addTracks_fresh [of "new_PeerConnector b" "getTracks s"]
  by (simp add: StartLocalStream_def StopLocalStream_def new_PeerConnector_def
      new_RTCPeerConnection_def getTracks_def attachedTracks_def)

text \<open>Stopping.\<close>

lemma removeTracks_ok:
  "\<not> isClosed pc \<Longrightarrow> list_all (\<lambda>s. s < length (senders pc)) ss \<Longrightarrow>
   removeTracks ss pc =
     (pc\<lparr>senders := fold (\<lambda>s l. l[s := (l ! s)\<lparr>senderTrack := None\<rparr>]) ss (senders pc)\<rparr>, None)"
  by (induction ss arbitrary: pc) (simp_all add: removeTrack_def)

lemma length_fold_unset:
  "length (fold (\<lambda>s l. l[s := (l ! s)\<lparr>senderTrack := None\<rparr>]) ss l) = length l"
  by (induction ss arbitrary: l) simp_all

lemma nth_fold_unset:
  "i < length l \<Longrightarrow>
   fold (\<lambda>s l. l[s := (l ! s)\<lparr>senderTrack := None\<rparr>]) ss l ! i =
     (if i \<in> set ss then (l ! i)\<lparr>senderTrack := None\<rparr> else l ! i)"
proof (induction ss arbitrary: l)
  case Nil
  then show ?case by simp
next
  case (Cons a ss)
  let ?l = "l[a := (l ! a)\<lparr>senderTrack := None\<rparr>]"
  have ih: "fold (\<lambda>s l. l[s := (l ! s)\<lparr>senderTrack := None\<rparr>]) ss ?l ! i =
      (if i \<in> set ss then (?l ! i)\<lparr>senderTrack := None\<rparr> else ?l ! i)"
    using Cons.prems by (intro Cons.IH) simp
  show ?case
  proof (cases "i = a")
    case True
    then have "?l ! i = (l ! i)\<lparr>senderTrack := None\<rparr>" using Cons.prems by simp
    then show ?thesis using ih True by simp
  next
    case False
    then have "?l ! i = l ! i" by simp
    then show ?thesis using ih False by simp
  qed
qed

lemma unset_idle: "senderTrack s = None \<Longrightarrow> s\<lparr>senderTrack := None\<rparr> = s"
  by (cases s) simp

lemma fold_unset_all:
  assumes "\<forall>i < length l. senderTrack (l ! i) = None \<or> i \<in> set ss"
  shows "fold (\<lambda>s l. l[s := (l ! s)\<lparr>senderTrack := None\<rparr>]) ss l =
           map (\<lambda>s. s\<lparr>senderTrack := None\<rparr>) l"
  using assms
  by (intro nth_equalityI) (auto simp: length_fold_unset nth_fold_unset unset_idle)

text \<open>
  \<^verbatim>\<open>rtpSenders\<close> only grows: \<^verbatim>\<open>StopLocalStream\<close> never shortens it, so the senders of
  earlier streams stay recorded, with or without a track, and a sender that is used again
  is recorded again.
\<close>

lemma StopLocalStream_rtpSenders: "rtpSenders (fst (StopLocalStream c)) = rtpSenders c"
  by (simp add: StopLocalStream_def split: prod.splits)

lemma StopLocalStream_detaches:
  assumes "\<not> isClosed (connector c)" and "sendersRecorded c"
  shows "StopLocalStream c =
    (c\<lparr>connector := (connector c)\<lparr>senders :=
          map (\<lambda>s. s\<lparr>senderTrack := None\<rparr>) (senders (connector c))\<rparr>\<rparr>, None)"
proof -
  have "list_all (\<lambda>s. s < length (senders (connector c))) (rtpSenders c)"
    and "\<forall>i < length (senders (connector c)).
           senderTrack (senders (connector c) ! i) = None \<or> i \<in> set (rtpSenders c)"
    using assms(2) by (auto simp: sendersRecorded_def list_all_iff)
  then show ?thesis
    using assms(1) by (simp add: StopLocalStream_def removeTracks_ok fold_unset_all)
qed

lemma StopLocalStream_noop:
  assumes "\<not> isClosed (connector c)" and "sendersRecorded c"
    and "attachedTracks (connector c) = []"
  shows "StopLocalStream c = (c, None)"
proof -
  have "map (\<lambda>s. s\<lparr>senderTrack := None\<rparr>) (senders (connector c)) = senders (connector c)"
    using assms(3) by (intro map_idI) (simp add: attachedTracks_Nil_iff unset_idle)
  then show ?thesis by (simp add: StopLocalStream_detaches [OF assms(1,2)])
qed

lemma StopLocalStream_ok:
  assumes "\<not> isClosed (connector c)" and "sendersRecorded c"
  shows "snd (StopLocalStream c) = None \<and> \<not> isClosed (connector (fst (StopLocalStream c))) \<and>
         sendersRecorded (fst (StopLocalStream c)) \<and>
         attachedTracks (connector (fst (StopLocalStream c))) = []"
  using assms
  by (simp add: StopLocalStream_detaches [OF assms] attachedTracks_Nil_iff)
    (auto simp: sendersRecorded_iff)

lemma StartLocalStream_first:
  assumes "\<not> isClosed (connector c)" and "sendersRecorded c"
  shows "StartLocalStream c stream = addTracks (getTracks stream) (fst (StopLocalStream c))"
  using StopLocalStream_ok [OF assms]
  by (cases "StopLocalStream c") (simp add: StartLocalStream_def)

lemma StartLocalStream_ok:
  assumes "\<not> isClosed (connector c)" and "sendersRecorded c"
  shows "snd (StartLocalStream c stream) = None \<and>
         \<not> isClosed (connector (fst (StartLocalStream c stream))) \<and>
         sendersRecorded (fst (StartLocalStream c stream)) \<and>
         set (attachedTracks (connector (fst (StartLocalStream c stream)))) = set (getTracks stream)"
proof -
  let ?c = "fst (StopLocalStream c)"
  from StopLocalStream_ok [OF assms]
  have s: "\<not> isClosed (connector ?c)" "sendersRecorded ?c"
    "attachedTracks (connector ?c) = []" by simp_all
  have "distinct (getTracks stream)" by (simp add: getTracks_def)
  moreover have "set (getTracks stream) \<inter> set (attachedTracks (connector ?c)) = {}"
    using s(3) by simp
  ultimately show ?thesis
    using addTracks_ok [OF s(1,2), of "getTracks stream"] s(3)
    by (simp add: StartLocalStream_first [OF assms])
qed

text \<open>
  That every sender with a track is recorded holds of a new connector, and every operation
  of a connector keeps it, whether it succeeds or fails. Only \<^verbatim>\<open>Shutdown\<close> closes a
  connector.
\<close>

lemma sendersRecorded_new: "sendersRecorded (new_PeerConnector b)"
  by (simp add: sendersRecorded_def new_PeerConnector_def new_RTCPeerConnection_def)

lemma sendersRecorded_cong:
  assumes "length (senders (connector c')) = length (senders (connector c))"
    and "\<forall>i < length (senders (connector c)).
           senderTrack (senders (connector c') ! i) = senderTrack (senders (connector c) ! i)"
    and "rtpSenders c' = rtpSenders c"
  shows "sendersRecorded c' = sendersRecorded c"
  using assms by (auto simp: sendersRecorded_iff)

lemma senderTrack_putToUse: "senderTrack (putToUse s) = senderTrack s"
  by (simp add: putToUse_def)

lemma removeTracks_closed: "isClosed pc \<Longrightarrow> fst (removeTracks ss pc) = pc"
  by (cases ss) (simp_all add: removeTrack_def)

lemma addTracks_closed: "isClosed (connector c) \<Longrightarrow> fst (addTracks ts c) = c"
  by (cases ts) (simp_all add: addTrack_def)

lemma StartLocalStream_closed: "isClosed (connector c) \<Longrightarrow> fst (StartLocalStream c stream) = c"
proof -
  assume closed: "isClosed (connector c)"
  then have "fst (StopLocalStream c) = c"
    using removeTracks_closed [of "connector c" "rtpSenders c"]
    by (cases "removeTracks (rtpSenders c) (connector c)") (simp add: StopLocalStream_def)
  then show ?thesis
    using closed addTracks_closed [of c "getTracks stream"]
    by (cases "StopLocalStream c") (auto simp: StartLocalStream_def split: option.splits)
qed

lemma sendersRecorded_StartLocalStream:
  assumes "sendersRecorded c"
  shows "sendersRecorded (fst (StartLocalStream c stream))"
proof (cases "isClosed (connector c)")
  case True
  then show ?thesis using assms by (simp add: StartLocalStream_closed)
next
  case False
  from StartLocalStream_ok [OF False assms] show ?thesis by simp
qed

lemma fold_flushIceCandidate_tracks:
  "senders (fold flushIceCandidate cs pc) = senders pc \<and>
   isClosed (fold flushIceCandidate cs pc) = isClosed pc"
  by (induction cs arbitrary: pc)
    (simp_all add: flushIceCandidate_def addIceCandidate_def split: sum.splits)

lemma fold_tryAddIceCandidate_tracks:
  "senders (connector (fold tryAddIceCandidate cs c)) = senders (connector c) \<and>
   rtpSenders (fold tryAddIceCandidate cs c) = rtpSenders c \<and>
   isClosed (connector (fold tryAddIceCandidate cs c)) = isClosed (connector c)"
  by (induction cs arbitrary: c)
    (simp_all add: tryAddIceCandidate_def addIceCandidate_def split: sum.splits)

lemma AcceptOffer_tracks:
  "length (senders (connector (fst (AcceptOffer c offer)))) = length (senders (connector c)) \<and>
   (\<forall>i < length (senders (connector c)).
      senderTrack (senders (connector (fst (AcceptOffer c offer))) ! i) =
      senderTrack (senders (connector c) ! i)) \<and>
   rtpSenders (fst (AcceptOffer c offer)) = rtpSenders c \<and>
   isClosed (connector (fst (AcceptOffer c offer))) = isClosed (connector c)"
proof (cases "isClosed (connector c)")
  case True
  then show ?thesis by (simp add: AcceptOffer_def setRemoteDescription_def)
next
  case False
  then show ?thesis
    by (simp add: AcceptOffer_def setRemoteDescription_def createAnswer_def
        setLocalDescription_def fold_flushIceCandidate_tracks Let_def senderTrack_putToUse)
qed

lemma AcceptAnswer_tracks:
  "length (senders (connector (fst (AcceptAnswer c answer)))) = length (senders (connector c)) \<and>
   (\<forall>i < length (senders (connector c)).
      senderTrack (senders (connector (fst (AcceptAnswer c answer))) ! i) =
      senderTrack (senders (connector c) ! i)) \<and>
   rtpSenders (fst (AcceptAnswer c answer)) = rtpSenders c \<and>
   isClosed (connector (fst (AcceptAnswer c answer))) = isClosed (connector c)"
  by (simp add: AcceptAnswer_def setRemoteDescription_def senderTrack_putToUse)

lemma onnegotiationneeded_tracks:
  "senders (connector (fst (onnegotiationneeded c))) = senders (connector c) \<and>
   rtpSenders (fst (onnegotiationneeded c)) = rtpSenders c \<and>
   isClosed (connector (fst (onnegotiationneeded c))) = isClosed (connector c)"
  by (simp add: onnegotiationneeded_def setLocalDescription_def)

lemma onicecandidate_tracks:
  "senders (connector (fst (onicecandidate c event))) = senders (connector c) \<and>
   rtpSenders (fst (onicecandidate c event)) = rtpSenders c \<and>
   isClosed (connector (fst (onicecandidate c event))) = isClosed (connector c)"
  by (simp add: onicecandidate_def split: option.splits)

lemma sendersRecorded_operations:
  assumes "sendersRecorded c"
  shows "sendersRecorded (fst (AcceptOffer c offer)) \<and>
         sendersRecorded (fst (AcceptAnswer c answer)) \<and>
         sendersRecorded (fst (AddRemoteCandidates c candidates)) \<and>
         sendersRecorded (fst (onicecandidate c event)) \<and>
         sendersRecorded (fst (onnegotiationneeded c)) \<and>
         sendersRecorded (Shutdown c)"
proof -
  have "sendersRecorded (fst (AcceptOffer c offer)) = sendersRecorded c"
    using AcceptOffer_tracks [of c offer] by (intro sendersRecorded_cong) simp_all
  moreover have "sendersRecorded (fst (AcceptAnswer c answer)) = sendersRecorded c"
    using AcceptAnswer_tracks [of c answer] by (intro sendersRecorded_cong) simp_all
  moreover have "sendersRecorded (fst (AddRemoteCandidates c candidates)) = sendersRecorded c"
    using fold_tryAddIceCandidate_tracks [of candidates c]
    by (intro sendersRecorded_cong) (simp_all add: AddRemoteCandidates_def)
  moreover have "sendersRecorded (fst (onicecandidate c event)) = sendersRecorded c"
    using onicecandidate_tracks [of c event] by (intro sendersRecorded_cong) simp_all
  moreover have "sendersRecorded (fst (onnegotiationneeded c)) = sendersRecorded c"
    using onnegotiationneeded_tracks [of c] by (intro sendersRecorded_cong) simp_all
  moreover have "sendersRecorded (Shutdown c) = sendersRecorded c"
    by (intro sendersRecorded_cong) (simp_all add: Shutdown_def close_def)
  ultimately show ?thesis using assms by simp
qed

lemma connectorOpen_new: "connectorOpen (fst (StartLocalStream (new_PeerConnector b) stream))"
proof -
  have "\<not> isClosed (connector (new_PeerConnector b))"
    by (simp add: new_PeerConnector_def new_RTCPeerConnection_def)
  from StartLocalStream_ok [OF this sendersRecorded_new] show ?thesis
    by (simp add: connectorOpen_def)
qed

lemma connectorOpen_operations:
  assumes "connectorOpen c"
  shows "connectorOpen (fst (StartLocalStream c stream)) \<and>
         connectorOpen (fst (AcceptOffer c offer)) \<and>
         connectorOpen (fst (AcceptAnswer c answer)) \<and>
         connectorOpen (fst (AddRemoteCandidates c candidates)) \<and>
         connectorOpen (fst (onicecandidate c event)) \<and>
         connectorOpen (fst (onnegotiationneeded c))"
proof -
  have o: "\<not> isClosed (connector c)" and r: "sendersRecorded c"
    using assms by (simp_all add: connectorOpen_def)
  show ?thesis
    using StartLocalStream_ok [OF o r, of stream]
      sendersRecorded_operations [OF r, of offer answer candidates event]
      AcceptOffer_tracks [of c offer] AcceptAnswer_tracks [of c answer]
      fold_tryAddIceCandidate_tracks [of candidates c]
      onicecandidate_tracks [of c event] onnegotiationneeded_tracks [of c] o
    by (simp add: connectorOpen_def AddRemoteCandidates_def)
qed


lemma started:
  "fst (StartLocalStream (new_PeerConnector b) (Dlist [MediaStreamTrack Audio ''mic''])) =
     (new_PeerConnector b)\<lparr>connector := new_RTCPeerConnection\<lparr>senders :=
          [\<lparr>senderTrack = Some (MediaStreamTrack Audio ''mic''), senderKind = Audio, usedToSend = False\<rparr>]\<rparr>,
        rtpSenders := [0]\<rparr>"
  by (simp add: StartLocalStream_new getTracks_def)

lemma closed_fails:
  "StartLocalStream (Shutdown (fst (StartLocalStream (new_PeerConnector b)
       (Dlist [MediaStreamTrack Audio ''mic''])))) stream =
     (Shutdown (fst (StartLocalStream (new_PeerConnector b) (Dlist [MediaStreamTrack Audio ''mic'']))),
      Some InvalidStateError)"
  by (simp add: started)
    (simp add: StartLocalStream_def StopLocalStream_def Shutdown_def close_def removeTrack_def
      new_PeerConnector_def)

text \<open>
  Claim C7, as the code has it. On a connector that has not been shut down (and has recorded
  every sender with a track, as every connector has), \<^verbatim>\<open>StopLocalStream\<close> succeeds and
  leaves no track attached, and changes nothing when no track was attached;
  \<^verbatim>\<open>StartLocalStream\<close> attaches the tracks of the stream to what \<^verbatim>\<open>StopLocalStream\<close> has
  left, it succeeds, and afterwards the set of the tracks attached to the capability is the
  set of the tracks of the new stream. The connector is again open with every attached
  sender recorded, so the call can be repeated.
\<close>

theorem StartLocalStream_replaces:
  assumes "\<not> isClosed (connector c)" and "sendersRecorded c"
  shows "StopLocalStream c = (fst (StopLocalStream c), None) \<and>
         attachedTracks (connector (fst (StopLocalStream c))) = [] \<and>
         (attachedTracks (connector c) = [] \<longrightarrow> StopLocalStream c = (c, None)) \<and>
         StartLocalStream c stream = addTracks (getTracks stream) (fst (StopLocalStream c)) \<and>
         StartLocalStream c stream = (fst (StartLocalStream c stream), None) \<and>
         set (attachedTracks (connector (fst (StartLocalStream c stream)))) = set (getTracks stream) \<and>
         \<not> isClosed (connector (fst (StartLocalStream c stream))) \<and>
         sendersRecorded (fst (StartLocalStream c stream))"
proof -
  have stop: "StopLocalStream c = (fst (StopLocalStream c), None)"
    using StopLocalStream_ok [OF assms] by (cases "StopLocalStream c") simp
  have start: "StartLocalStream c stream = (fst (StartLocalStream c stream), None)"
    using StartLocalStream_ok [OF assms, of stream] by (cases "StartLocalStream c stream") simp
  show ?thesis
    using stop start StopLocalStream_ok [OF assms] StopLocalStream_noop [OF assms]
      StartLocalStream_first [OF assms, of stream] StartLocalStream_ok [OF assms, of stream]
    by blast
qed

theorem StartLocalStream_replaces_witness:
  "\<not> isClosed (connector (fst (StartLocalStream (new_PeerConnector True)
        (Dlist [MediaStreamTrack Audio ''mic''])))) \<and>
   sendersRecorded (fst (StartLocalStream (new_PeerConnector True) (Dlist [MediaStreamTrack Audio ''mic'']))) \<and>
   attachedTracks (connector (fst (StartLocalStream (new_PeerConnector True)
        (Dlist [MediaStreamTrack Audio ''mic''])))) = [MediaStreamTrack Audio ''mic''] \<and>
   StartLocalStream (fst (StartLocalStream (new_PeerConnector True) (Dlist [MediaStreamTrack Audio ''mic''])))
       (Dlist [MediaStreamTrack Audio ''headset'', MediaStreamTrack Video ''camera'']) =
     (fst (StartLocalStream (fst (StartLocalStream (new_PeerConnector True)
             (Dlist [MediaStreamTrack Audio ''mic''])))
        (Dlist [MediaStreamTrack Audio ''headset'', MediaStreamTrack Video ''camera''])), None) \<and>
   set (attachedTracks (connector (fst (StartLocalStream
       (fst (StartLocalStream (new_PeerConnector True) (Dlist [MediaStreamTrack Audio ''mic''])))
       (Dlist [MediaStreamTrack Audio ''headset'', MediaStreamTrack Video ''camera''])))))
     = {MediaStreamTrack Audio ''headset'', MediaStreamTrack Video ''camera''}"
proof -
  let ?c = "fst (StartLocalStream (new_PeerConnector True) (Dlist [MediaStreamTrack Audio ''mic'']))"
  let ?s = "Dlist [MediaStreamTrack Audio ''headset'', MediaStreamTrack Video ''camera'']"
  have h: "\<not> isClosed (connector ?c)" "sendersRecorded ?c"
    using connectorOpen_new [of True "Dlist [MediaStreamTrack Audio ''mic'']"]
    by (simp_all add: connectorOpen_def)
  have before: "attachedTracks (connector ?c) = [MediaStreamTrack Audio ''mic'']"
    by (simp add: started) (simp add: attachedTracks_def new_PeerConnector_def)
  have tracks: "set (getTracks ?s) = {MediaStreamTrack Audio ''headset'', MediaStreamTrack Video ''camera''}"
    by (simp add: getTracks_def)
  from StartLocalStream_replaces [OF h, of ?s]
  have "StartLocalStream ?c ?s = (fst (StartLocalStream ?c ?s), None)"
    and "set (attachedTracks (connector (fst (StartLocalStream ?c ?s)))) = set (getTracks ?s)"
    by blast+
  with h before tracks show ?thesis by (simp only:) blast
qed

text \<open>
  The claim as it was written speaks of every call. After \<^verbatim>\<open>Shutdown\<close> the capability
  refuses \<^verbatim>\<open>removeTrack\<close>: the call ends with its exception, the track of the old stream
  is still the one attached, and the track of the new stream is not.
\<close>

theorem StartLocalStream_closed_counterexample:
  "snd (StartLocalStream (Shutdown (fst (StartLocalStream (new_PeerConnector True)
            (Dlist [MediaStreamTrack Audio ''mic'']))))
          (Dlist [MediaStreamTrack Video ''camera''])) = Some InvalidStateError \<and>
   attachedTracks (connector (fst (StartLocalStream (Shutdown (fst (StartLocalStream (new_PeerConnector True)
            (Dlist [MediaStreamTrack Audio ''mic'']))))
          (Dlist [MediaStreamTrack Video ''camera''])))) = [MediaStreamTrack Audio ''mic''] \<and>
   getTracks (Dlist [MediaStreamTrack Video ''camera'']) = [MediaStreamTrack Video ''camera'']"
  by (simp add: closed_fails getTracks_def)
    (simp add: started Shutdown_def close_def attachedTracks_def)

subsection \<open>Roles\<close>

lemma CreateConnector_new:
  "map_of (connectors m) fromId = None \<Longrightarrow>
   CreateConnector m fromId =
     (m\<lparr>connectors := AList.update fromId
          (fst (StartLocalStream (new_PeerConnector (string_less fromId (AttendeeId m))) (OnNeedLocalStream m)))
          (connectors m)\<rparr>, None)"
  by (simp add: CreateConnector_def CreatePeerConnector_def StartLocalStream_new)

lemma shouldOffer_started: "shouldOffer (fst (StartLocalStream (new_PeerConnector b) s)) = b"
  by (simp add: StartLocalStream_new) (simp add: new_PeerConnector_def)

lemma AcceptOffer_outputs:
  "AcceptOffer c d = (c', outs, e) \<Longrightarrow>
   shouldOffer c' = shouldOffer c \<and> (outs = [] \<or> (\<exists>x. outs = [OnAcceptedOffer x]))"
  by (auto simp: AcceptOffer_def Let_def split: sum.splits)

lemma AcceptAnswer_shouldOffer: "shouldOffer (fst (AcceptAnswer c d)) = shouldOffer c"
  by (simp add: AcceptAnswer_def split: sum.splits)

lemma tryAddIceCandidate_shouldOffer: "shouldOffer (tryAddIceCandidate x c) = shouldOffer c"
  by (simp add: tryAddIceCandidate_def split: sum.splits)

lemma AddRemoteCandidates_shouldOffer: "shouldOffer (fst (AddRemoteCandidates c xs)) = shouldOffer c"
  unfolding AddRemoteCandidates_def fst_conv
  by (induction xs arbitrary: c) (simp_all add: tryAddIceCandidate_shouldOffer)

lemma dispatch_offer_shouldOffer:
  assumes "map_of (connectors m) (FromId e) = Some c" and "Type e = ''offer''"
  shows "map_option shouldOffer (map_of (connectors (fst (dispatch m e))) (FromId e)) = Some (shouldOffer c)"
proof (cases "Data e")
  case (SessionDescription d)
  obtain c' outs r where a: "AcceptOffer c d = (c', outs, r)"
    by (cases "AcceptOffer c d") auto
  from AcceptOffer_outputs [OF a] show ?thesis
    using assms SessionDescription a by (auto simp: dispatch_def update_conv')
qed (use assms in \<open>simp_all add: dispatch_def\<close>)

lemma dispatch_accept_shouldOffer:
  assumes "map_of (connectors m) (FromId e) = Some c" and "Type e = ''accept''"
  shows "map_option shouldOffer (map_of (connectors (fst (dispatch m e))) (FromId e)) = Some (shouldOffer c)"
proof (cases "Data e")
  case (SessionDescription d)
  then show ?thesis
    using assms AcceptAnswer_shouldOffer [of c d]
    by (auto simp: dispatch_def update_conv' split: prod.splits)
qed (use assms in \<open>simp_all add: dispatch_def\<close>)

lemma dispatch_candidates_shouldOffer:
  assumes "map_of (connectors m) (FromId e) = Some c" and "Type e = ''candidates''"
  shows "map_option shouldOffer (map_of (connectors (fst (dispatch m e))) (FromId e)) = Some (shouldOffer c)"
proof (cases "Data e")
  case (IceCandidates xs)
  then show ?thesis
    using assms AddRemoteCandidates_shouldOffer [of c xs]
    by (auto simp: dispatch_def update_conv' split: prod.splits)
qed (use assms in \<open>simp_all add: dispatch_def\<close>)

lemma dispatch_other:
  "Type e \<noteq> ''offer'' \<Longrightarrow> Type e \<noteq> ''accept'' \<Longrightarrow> Type e \<noteq> ''candidates'' \<Longrightarrow>
   fst (dispatch m e) = m"
  by (simp add: dispatch_def split: option.splits)

lemma dispatch_shouldOffer:
  assumes "map_of (connectors m) (FromId e) = Some c"
  shows "map_option shouldOffer (map_of (connectors (fst (dispatch m e))) (FromId e)) = Some (shouldOffer c)"
proof -
  consider "Type e = ''offer''" | "Type e = ''accept''" | "Type e = ''candidates''"
    | "Type e \<noteq> ''offer''" "Type e \<noteq> ''accept''" "Type e \<noteq> ''candidates''"
    by blast
  then show ?thesis
  proof cases
    case 1
    then show ?thesis using assms by (rule dispatch_offer_shouldOffer [rotated])
  next
    case 2
    then show ?thesis using assms by (rule dispatch_accept_shouldOffer [rotated])
  next
    case 3
    then show ?thesis using assms by (rule dispatch_candidates_shouldOffer [rotated])
  next
    case 4
    then show ?thesis using assms by (simp add: dispatch_other)
  qed
qed

text \<open>
  Claim C1, as the code has it. For every inbound envelope from a remote identity that is
  not the local one and has no connector yet, \<^verbatim>\<open>OnMessage\<close> leaves a connector registered
  under that identity whose role is Offerer exactly when the remote identity precedes the
  local \<^verbatim>\<open>AttendeeId\<close> in the string order, and Answerer otherwise
  (\<^verbatim>\<open>shouldOffer = fromId < AttendeeId\<close>). With the local identity \<^verbatim>\<open>"200"\<close> and an
  envelope from \<^verbatim>\<open>"100"\<close>, the connector made for \<^verbatim>\<open>"100"\<close> is the Offerer.
\<close>

theorem CreateConnector_role:
  assumes "FromId message \<noteq> AttendeeId m"
    and "map_of (connectors m) (FromId message) = None"
  shows "map_option role (map_of (connectors (fst (OnMessage m message))) (FromId message)) =
           Some (if string_less (FromId message) (AttendeeId m) then Offerer else Answerer)"
proof -
  let ?c = "fst (StartLocalStream (new_PeerConnector (string_less (FromId message) (AttendeeId m)))
                   (OnNeedLocalStream m))"
  let ?m = "m\<lparr>connectors := AList.update (FromId message) ?c (connectors m)\<rparr>"
  have "OnMessage m message = dispatch ?m message"
    using assms by (simp add: OnMessage_def CreateConnector_new)
  moreover have "map_of (connectors ?m) (FromId message) = Some ?c"
    by (simp add: update_conv')
  ultimately have "map_option shouldOffer (map_of (connectors (fst (OnMessage m message))) (FromId message))
      = Some (string_less (FromId message) (AttendeeId m))"
    using dispatch_shouldOffer [of ?m message ?c] by (simp add: shouldOffer_started)
  then show ?thesis
    by (auto simp: role_def map_option_case split: option.splits)
qed

theorem CreateConnector_role_witness:
  "map_option role (map_of (connectors (fst (OnMessage
       \<lparr>AttendeeId = ''200'', connectors = [], OnNeedLocalStream = Dlist [MediaStreamTrack Audio ''mic'', MediaStreamTrack Video ''camera'']\<rparr>
       \<lparr>RoomId = ''room'', FromId = ''100'', Type = ''discover'', Data = ObjectData []\<rparr>))) ''100'')
   = Some Offerer"
  using CreateConnector_role [of "\<lparr>RoomId = ''room'', FromId = ''100'', Type = ''discover'', Data = ObjectData []\<rparr>"
      "\<lparr>AttendeeId = ''200'', connectors = [], OnNeedLocalStream = Dlist [MediaStreamTrack Audio ''mic'', MediaStreamTrack Video ''camera'']\<rparr>"]
  by simp

text \<open>
  The claim as it was written gives the roles the other way round: in its own scenario the
  identity \<^verbatim>\<open>"100"\<close> precedes \<^verbatim>\<open>"200"\<close>, and the connector is not the Answerer.
\<close>

theorem CreateConnector_role_counterexample:
  "string_less ''100'' ''200'' \<and>
   map_option role (map_of (connectors (fst (OnMessage
       \<lparr>AttendeeId = ''200'', connectors = [], OnNeedLocalStream = Dlist [MediaStreamTrack Audio ''mic'', MediaStreamTrack Video ''camera'']\<rparr>
       \<lparr>RoomId = ''room'', FromId = ''100'', Type = ''discover'', Data = ObjectData []\<rparr>))) ''100'')
   \<noteq> Some Answerer"
  by (simp add: OnMessage_def CreateConnector_def CreatePeerConnector_def StartLocalStream_def
      StopLocalStream_def new_PeerConnector_def new_RTCPeerConnection_def getTracks_def
      addTrack_def attachedTracks_def dispatch_def role_def)

text \<open>
  Claim C2. For two distinct identities, the connector that the manager of the one creates
  for the other and the connector that the manager of the other creates for the one have
  opposite roles: one side of the pair is the Offerer, the other the Answerer.
\<close>

theorem role_opposite:
  assumes "AttendeeId mA \<noteq> AttendeeId mB"
    and "map_of (connectors mA) (AttendeeId mB) = None"
    and "map_of (connectors mB) (AttendeeId mA) = None"
  shows "\<exists>cA cB.
      map_of (connectors (fst (CreateConnector mA (AttendeeId mB)))) (AttendeeId mB) = Some cA \<and>
      map_of (connectors (fst (CreateConnector mB (AttendeeId mA)))) (AttendeeId mA) = Some cB \<and>
      ((role cA = Offerer \<and> role cB = Answerer) \<or> (role cA = Answerer \<and> role cB = Offerer))"
  using assms string_less_asym [of "AttendeeId mA" "AttendeeId mB"]
    string_less_total [of "AttendeeId mA" "AttendeeId mB"]
  by (auto simp: CreateConnector_new update_conv' role_def shouldOffer_started)

theorem role_opposite_witness:
  "\<exists>cA cB.
      map_of (connectors (fst (CreateConnector
         \<lparr>AttendeeId = ''200'', connectors = [], OnNeedLocalStream = Dlist [MediaStreamTrack Audio ''mic'']\<rparr> ''100''))) ''100''
        = Some cA \<and>
      map_of (connectors (fst (CreateConnector
         \<lparr>AttendeeId = ''100'', connectors = [], OnNeedLocalStream = Dlist [MediaStreamTrack Video ''camera'']\<rparr> ''200''))) ''200''
        = Some cB \<and>
      ((role cA = Offerer \<and> role cB = Answerer) \<or> (role cA = Answerer \<and> role cB = Offerer))"
  using role_opposite [of "\<lparr>AttendeeId = ''200'', connectors = [], OnNeedLocalStream = Dlist [MediaStreamTrack Audio ''mic'']\<rparr>"
      "\<lparr>AttendeeId = ''100'', connectors = [], OnNeedLocalStream = Dlist [MediaStreamTrack Video ''camera'']\<rparr>"]
  by simp

subsection \<open>Routing of envelopes\<close>

text \<open>
  Claim C9. An envelope whose \<^verbatim>\<open>FromId\<close> is the local \<^verbatim>\<open>AttendeeId\<close> has no effect:
  the manager, and with it the registry, is unchanged, nothing is sent through the broker,
  no delegate is called and nothing is thrown.
\<close>

theorem OnMessage_self:
  "FromId message = AttendeeId m \<Longrightarrow> OnMessage m message = (m, [], None)"
  by (simp add: OnMessage_def)

theorem OnMessage_self_witness:
  "OnMessage \<lparr>AttendeeId = ''200'', connectors = [], OnNeedLocalStream = Dlist [MediaStreamTrack Audio ''mic'']\<rparr>
     \<lparr>RoomId = ''room'', FromId = ''200'', Type = ''offer'',
      Data = SessionDescription \<lparr>sdpType = ''offer'', sdp = ''v=0''\<rparr>\<rparr>
   = (\<lparr>AttendeeId = ''200'', connectors = [], OnNeedLocalStream = Dlist [MediaStreamTrack Audio ''mic'']\<rparr>, [], None)"
  using OnMessage_self [of "\<lparr>RoomId = ''room'', FromId = ''200'', Type = ''offer'',
      Data = SessionDescription \<lparr>sdpType = ''offer'', sdp = ''v=0''\<rparr>\<rparr>"
      "\<lparr>AttendeeId = ''200'', connectors = [], OnNeedLocalStream = Dlist [MediaStreamTrack Audio ''mic'']\<rparr>"]
  by simp

lemma dispatch_RoomId: "dispatch m (message\<lparr>RoomId := roomId\<rparr>) = dispatch m message"
  by (simp add: dispatch_def cong: option.case_cong payload.case_cong prod.case_cong)

text \<open>
  Claim C10. Routing filters neither by room nor by addressee. An envelope is its four
  fields \<^verbatim>\<open>RoomId\<close>, \<^verbatim>\<open>FromId\<close>, \<^verbatim>\<open>Type\<close> and \<^verbatim>\<open>Data\<close>, with no field for an addressee,
  and replacing the \<^verbatim>\<open>RoomId\<close> of an envelope changes nothing in what \<^verbatim>\<open>OnMessage\<close>
  returns: the same registry, the same sends, the same notifications, the same exception.
\<close>

theorem OnMessage_RoomId:
  "OnMessage m (message\<lparr>RoomId := roomId\<rparr>) = OnMessage m message \<and>
   message = \<lparr>RoomId = RoomId message, FromId = FromId message, Type = Type message, Data = Data message\<rparr>"
  by (simp add: OnMessage_def dispatch_RoomId split: prod.splits option.splits)

subsection \<open>Candidates\<close>

lemma gather_candidates:
  "gather c (map Some cs @ rest) = gather (c\<lparr>localCandidates := localCandidates c @ cs\<rparr>) rest"
  by (induction cs arbitrary: c) (simp_all add: onicecandidate_def)

text \<open>
  Claim C5. A run of gathered candidates appends each to \<^verbatim>\<open>localCandidates\<close> in the order
  of discovery and emits nothing; the end-of-gathering event that follows it causes one
  emission of \<^verbatim>\<open>OnHasIceCandidates\<close>, which carries the whole buffer, and leaves the buffer
  empty.
\<close>

theorem onicecandidate_batch:
  "gather c (map Some cs) = (c\<lparr>localCandidates := localCandidates c @ cs\<rparr>, []) \<and>
   gather c (map Some cs @ [None]) =
     (c\<lparr>localCandidates := []\<rparr>, [OnHasIceCandidates (localCandidates c @ cs)])"
  using gather_candidates [of c cs "[]"] gather_candidates [of c cs "[None]"]
  by (simp add: onicecandidate_def)

lemma fold_tryAddIceCandidate_buffer:
  "remoteDescription (connector c) = None \<Longrightarrow>
   fold tryAddIceCandidate cs c = c\<lparr>remoteCandidates := remoteCandidates c @ cs\<rparr>"
  by (induction cs arbitrary: c) (simp_all add: tryAddIceCandidate_def addIceCandidate_def)

lemma fold_flushIceCandidate:
  "\<not> isClosed pc \<Longrightarrow> remoteDescription pc \<noteq> None \<Longrightarrow>
   fold flushIceCandidate cs pc = pc\<lparr>iceCandidates := iceCandidates pc @ cs\<rparr>"
  by (induction cs arbitrary: pc) (simp_all add: flushIceCandidate_def addIceCandidate_def)

text \<open>
  Claim C4. While the capability has no remote description, every candidate given to
  \<^verbatim>\<open>AddRemoteCandidates\<close> is appended to \<^verbatim>\<open>remoteCandidates\<close> in the order of receipt,
  the capability is left as it was and the promise resolves. When \<^verbatim>\<open>AcceptOffer\<close> applies
  its remote description, it ends without a rejection, every buffered candidate has been
  added to the capability in the order of the buffer, behind those already there, and the
  buffer is empty.
\<close>

theorem remoteCandidates_buffered_then_flushed:
  "(remoteDescription (connector c) = None \<longrightarrow>
      AddRemoteCandidates c cs = (c\<lparr>remoteCandidates := remoteCandidates c @ cs\<rparr>, None)) \<and>
   (setRemoteDescription (connector c) offer = Inr pc \<longrightarrow>
      AcceptOffer c offer =
        (c\<lparr>connector := pc\<lparr>localDescription := Some LocalAnswer,
                              iceCandidates := iceCandidates (connector c) @ remoteCandidates c\<rparr>,
           remoteCandidates := []\<rparr>,
         [OnAcceptedOffer (Some LocalAnswer)], None) \<and>
      remoteDescription pc = Some (FromPeer offer))"
  by (auto simp: AddRemoteCandidates_def fold_tryAddIceCandidate_buffer AcceptOffer_def
      setRemoteDescription_def createAnswer_def setLocalDescription_def fold_flushIceCandidate
      split: if_splits)

theorem remoteCandidates_buffered_then_flushed_witness:
  "AddRemoteCandidates (new_PeerConnector False) [''c1'', ''c2''] =
     ((new_PeerConnector False)\<lparr>remoteCandidates := [''c1'', ''c2'']\<rparr>, None) \<and>
   AcceptOffer ((new_PeerConnector False)\<lparr>remoteCandidates := [''c1'', ''c2'']\<rparr>)
       \<lparr>sdpType = ''offer'', sdp = ''v=0''\<rparr> =
     ((new_PeerConnector False)\<lparr>connector := new_RTCPeerConnection
          \<lparr>localDescription := Some LocalAnswer,
           remoteDescription := Some (FromPeer \<lparr>sdpType = ''offer'', sdp = ''v=0''\<rparr>),
           iceCandidates := [''c1'', ''c2'']\<rparr>\<rparr>,
      [OnAcceptedOffer (Some LocalAnswer)], None)"
  using remoteCandidates_buffered_then_flushed [of "new_PeerConnector False" "[''c1'', ''c2'']"]
    remoteCandidates_buffered_then_flushed [of
      "(new_PeerConnector False)\<lparr>remoteCandidates := [''c1'', ''c2'']\<rparr>" "[]"
      "\<lparr>sdpType = ''offer'', sdp = ''v=0''\<rparr>"
      "new_RTCPeerConnection\<lparr>remoteDescription := Some (FromPeer \<lparr>sdpType = ''offer'', sdp = ''v=0''\<rparr>)\<rparr>"]
  by (simp add: new_PeerConnector_def new_RTCPeerConnection_def setRemoteDescription_def)

subsection \<open>Negotiation\<close>

text \<open>
  Claim C6. In every state of an Answerer in which neither description of the capability is
  set, \<^verbatim>\<open>onnegotiationneeded\<close> returns at once: the connector is unchanged, so no offer has
  been created, and nothing is emitted.
\<close>

theorem onnegotiationneeded_suppressed:
  "role c = Answerer \<Longrightarrow> localDescription (connector c) = None \<Longrightarrow>
   remoteDescription (connector c) = None \<Longrightarrow> onnegotiationneeded c = (c, [])"
  by (simp add: role_def onnegotiationneeded_def split: if_splits)

theorem onnegotiationneeded_suppressed_witness:
  "role (new_PeerConnector False) = Answerer \<and>
   localDescription (connector (new_PeerConnector False)) = None \<and>
   remoteDescription (connector (new_PeerConnector False)) = None \<and>
   onnegotiationneeded (new_PeerConnector False) = (new_PeerConnector False, [])"
proof -
  have h: "role (new_PeerConnector False) = Answerer"
    "localDescription (connector (new_PeerConnector False)) = None"
    "remoteDescription (connector (new_PeerConnector False)) = None"
    by (simp_all add: role_def new_PeerConnector_def new_RTCPeerConnection_def)
  from onnegotiationneeded_suppressed [OF h] h show ?thesis by simp
qed

subsection \<open>Failure of a connection\<close>

text \<open>
  Claim C3, as the code has it. For every registered connector, a change whose \<^verbatim>\<open>State\<close>
  is \<^verbatim>\<open>"failed"\<close>, on any of the three dimensions \<^verbatim>\<open>Ice\<close>, \<^verbatim>\<open>RTC\<close> and \<^verbatim>\<open>Signal\<close>, is
  forwarded as \<^verbatim>\<open>OnConnectionChanged(fromId, change)\<close>, after which the manager shuts the
  connector down and removes its entry; the entries of the other identities stay, and no
  further notification is made. A change with any other state is forwarded and nothing else
  happens.
\<close>

theorem OnConnectionChanged_teardown:
  assumes "map_of (connectors m) fromId = Some c"
  shows "deliver fromId m (OnConnectionChanged (ConnectionChange dimension state)) =
      (if state = ''failed''
       then (m\<lparr>connectors := AList.delete fromId (connectors m)\<rparr>,
             [ManagerOnConnectionChanged fromId (ConnectionChange dimension state),
              ConnectorShutdown fromId (Shutdown c)], None)
       else (m, [ManagerOnConnectionChanged fromId (ConnectionChange dimension state)], None)) \<and>
    map_of (AList.delete fromId (connectors m)) fromId = None \<and>
    (clientId \<noteq> fromId \<longrightarrow>
       map_of (AList.delete fromId (connectors m)) clientId = map_of (connectors m) clientId) \<and>
    isClosed (connector (Shutdown c))"
  using assms by (simp add: delete_conv' Shutdown_def close_def)

theorem OnConnectionChanged_teardown_witness:
  "deliver ''100''
     \<lparr>AttendeeId = ''200'', connectors = [(''100'', new_PeerConnector True)],
      OnNeedLocalStream = Dlist []\<rparr>
     (OnConnectionChanged (ConnectionChange RTC ''failed'')) =
   (\<lparr>AttendeeId = ''200'', connectors = [], OnNeedLocalStream = Dlist []\<rparr>,
    [ManagerOnConnectionChanged ''100'' (ConnectionChange RTC ''failed''),
     ConnectorShutdown ''100'' (Shutdown (new_PeerConnector True))], None) \<and>
   isClosed (connector (Shutdown (new_PeerConnector True)))"
  using OnConnectionChanged_teardown [of
      "\<lparr>AttendeeId = ''200'', connectors = [(''100'', new_PeerConnector True)],
        OnNeedLocalStream = Dlist []\<rparr>" "''100''" "new_PeerConnector True" RTC "''failed''" "''300''"]
  by simp

text \<open>
  The claim as it was written restricts the teardown to the overall dimension and adds a
  disconnect notification. A failure reported by \<^verbatim>\<open>oniceconnectionstatechange\<close> removes the
  connector too, and the only notification is the forwarded change.
\<close>

theorem OnConnectionChanged_teardown_counterexample:
  "map_of (connectors \<lparr>AttendeeId = ''200'', connectors = [(''100'', new_PeerConnector True)],
      OnNeedLocalStream = Dlist []\<rparr>) ''100'' = Some (new_PeerConnector True) \<and>
   deliverAll ''100''
     \<lparr>AttendeeId = ''200'', connectors = [(''100'', new_PeerConnector True)],
      OnNeedLocalStream = Dlist []\<rparr>
     (snd (oniceconnectionstatechange (new_PeerConnector True) ''failed'')) =
   (\<lparr>AttendeeId = ''200'', connectors = [], OnNeedLocalStream = Dlist []\<rparr>,
    [ManagerOnConnectionChanged ''100'' (ConnectionChange Ice ''failed''),
     ConnectorShutdown ''100'' (Shutdown (new_PeerConnector True))], None)"
  by (simp add: oniceconnectionstatechange_def)

subsection \<open>Refreshing the local stream\<close>

text \<open>
  The manager shuts a connector down only when it removes it from the registry. So in
  every state that the manager reaches from an empty registry, every registered connector
  is open and has its senders recorded: no operation of the manager loses that.
\<close>

lemma connectorsOpen_lookup:
  "connectorsOpen m \<Longrightarrow> map_of (connectors m) k = Some c \<Longrightarrow> connectorOpen c"
  by (auto simp: connectorsOpen_def list_all_iff dest: map_of_SomeD)

lemma list_all_update:
  "list_all (\<lambda>(k, c). P c) al \<Longrightarrow> P v \<Longrightarrow> list_all (\<lambda>(k, c). P c) (AList.update k' v al)"
  by (induction al) auto

lemma list_all_delete:
  "list_all (\<lambda>(k, c). P c) al \<Longrightarrow> list_all (\<lambda>(k, c). P c) (AList.delete k' al)"
  by (induction al) auto

lemma connectorsOpen_update:
  "connectorsOpen m \<Longrightarrow> connectorOpen c \<Longrightarrow>
   connectorsOpen (m\<lparr>connectors := AList.update k c (connectors m)\<rparr>)"
  by (simp add: connectorsOpen_def list_all_update)

lemma connectorsOpen_empty: "connectors m = [] \<Longrightarrow> connectorsOpen m"
  by (simp add: connectorsOpen_def)

lemma connectorsOpen_CreateConnector:
  "connectorsOpen m \<Longrightarrow> connectorsOpen (fst (CreateConnector m fromId))"
  using connectorOpen_new [of "string_less fromId (AttendeeId m)" "OnNeedLocalStream m"]
  by (cases "map_of (connectors m) fromId")
    (simp_all add: CreateConnector_new connectorsOpen_update, simp add: CreateConnector_def)

lemma connectorsOpen_deliver:
  "connectorsOpen m \<Longrightarrow> connectorsOpen (fst (deliver fromId m out))"
  by (cases out) (auto simp: connectorsOpen_def list_all_delete split: option.splits)

lemma connectorsOpen_deliverAll:
  "connectorsOpen m \<Longrightarrow> connectorsOpen (fst (deliverAll fromId m outs))"
proof (induction outs arbitrary: m)
  case Nil
  then show ?case by simp
next
  case (Cons out outs)
  obtain m' effs err where d: "deliver fromId m out = (m', effs, err)"
    by (cases "deliver fromId m out") auto
  then have "connectorsOpen m'"
    using connectorsOpen_deliver [OF Cons.prems, of fromId out] by simp
  from Cons.IH [OF this] show ?case
    using d \<open>connectorsOpen m'\<close> by (cases err) (auto split: prod.splits)
qed

lemma connectorsOpen_dispatch:
  assumes "connectorsOpen m"
  shows "connectorsOpen (fst (dispatch m e))"
proof -
  consider "Type e = ''offer''" | "Type e = ''accept''" | "Type e = ''candidates''"
    | "Type e \<noteq> ''offer''" "Type e \<noteq> ''accept''" "Type e \<noteq> ''candidates''"
    by blast
  then show ?thesis
  proof cases
    case 1
    show ?thesis
    proof (cases "map_of (connectors m) (FromId e)")
      case None
      then show ?thesis using 1 assms by (simp add: dispatch_def)
    next
      case (Some c)
      note c = connectorOpen_operations [OF connectorsOpen_lookup [OF assms Some]]
      show ?thesis
      proof (cases "Data e")
        case (SessionDescription d)
        obtain c' outs r where a: "AcceptOffer c d = (c', outs, r)"
          by (cases "AcceptOffer c d") auto
        then have "connectorOpen c'" using c [of _ d] by simp
        then show ?thesis
          using 1 Some SessionDescription a assms
          by (simp add: dispatch_def connectorsOpen_deliverAll connectorsOpen_update)
      qed (use 1 Some assms in \<open>simp_all add: dispatch_def\<close>)
    qed
  next
    case 2
    show ?thesis
    proof (cases "map_of (connectors m) (FromId e)")
      case None
      then show ?thesis using 2 assms by (simp add: dispatch_def)
    next
      case (Some c)
      note c = connectorOpen_operations [OF connectorsOpen_lookup [OF assms Some]]
      show ?thesis
      proof (cases "Data e")
        case (SessionDescription d)
        then show ?thesis
          using 2 Some assms c [of _ _ d]
          by (auto simp: dispatch_def connectorsOpen_update split: prod.splits)
      qed (use 2 Some assms in \<open>simp_all add: dispatch_def\<close>)
    qed
  next
    case 3
    show ?thesis
    proof (cases "map_of (connectors m) (FromId e)")
      case None
      then show ?thesis using 3 assms by (simp add: dispatch_def)
    next
      case (Some c)
      note c = connectorOpen_operations [OF connectorsOpen_lookup [OF assms Some]]
      show ?thesis
      proof (cases "Data e")
        case (IceCandidates xs)
        then show ?thesis
          using 3 Some assms c [of _ _ _ xs]
          by (auto simp: dispatch_def connectorsOpen_update split: prod.splits)
      qed (use 3 Some assms in \<open>simp_all add: dispatch_def\<close>)
    qed
  next
    case 4
    then show ?thesis using assms by (simp add: dispatch_def split: option.splits)
  qed
qed

lemma connectorsOpen_OnMessage:
  assumes "connectorsOpen m"
  shows "connectorsOpen (fst (OnMessage m message))"
proof (cases "FromId message = AttendeeId m")
  case True
  then show ?thesis using assms by (simp add: OnMessage_def)
next
  case False
  obtain m' err where c: "CreateConnector m (FromId message) = (m', err)"
    by (cases "CreateConnector m (FromId message)") auto
  then have "connectorsOpen m'"
    using connectorsOpen_CreateConnector [OF assms, of "FromId message"] by simp
  then show ?thesis
    using False c connectorsOpen_dispatch [of m' message]
    by (cases err) (simp_all add: OnMessage_def)
qed


text \<open>
  The loop of \<^verbatim>\<open>RefreshLocalStream\<close> has no handler of its own: an exception of
  \<^verbatim>\<open>StartLocalStream\<close> would leave it with the later entries untouched.
\<close>

lemma refreshConnectors_abort:
  "list_all (\<lambda>(clientId, c). snd (StartLocalStream c s) = None) before \<Longrightarrow>
   snd (StartLocalStream c s) = Some err \<Longrightarrow>
   refreshConnectors s (before @ (k, c) # after) =
     (map (\<lambda>(clientId, c). (clientId, fst (StartLocalStream c s))) before
        @ (k, fst (StartLocalStream c s)) # after, Some err)"
  by (induction before) (auto split: prod.splits option.splits)



end
